theory Spec2Isabelle
  imports Main
begin

section \<open>The OCR menu of Bookworm (\<^verbatim>\<open>bookworm/ocr/ocr_menu.py\<close>)\<close>

subsection \<open>Data model\<close>

text \<open>
  A page is identified by its number. An image is opaque: the menu only hands it from the
  document to the engine. A language is known to the menu through its \<^verbatim>\<open>is_rtl\<close>
  attribute only.
\<close>

type_synonym page = int
type_synonym image = string

record language =
  lang_name :: string
  is_rtl :: bool

text \<open>
  \<^verbatim>\<open>OcrOptions\<close>, as the options dialog returns it. The menu reads exactly these four
  attributes.
\<close>

record ocr_options =
  language :: language
  zoom_factor :: int
  image_processing_pipelines :: "string list"
  store_options :: bool

text \<open>
  \<^verbatim>\<open>OcrRequest(language=, image=, image_processing_pipelines=, cookie=)\<close>. The cookie
  is optional: the scan of an image file passes none. The fields carry the prefix
  \<open>request_\<close> since \<open>language\<close> and \<open>image_processing_pipelines\<close> name the fields
  of the options already.
\<close>

record ocr_request =
  request_language :: language
  request_image :: image
  request_pipelines :: "string list"
  request_cookie :: "page option"

text \<open>\<^verbatim>\<open>OcrResult\<close>: what \<^verbatim>\<open>_ocr_callback\<close> reads of it.\<close>

record ocr_result =
  cookie :: page
  recognized_text :: string

text \<open>
  \<^verbatim>\<open>task.result()\<close> of the finished future either returns the engine's result or
  raises what the background call raised: an instance of \<^verbatim>\<open>Exception\<close> (\<open>Raised\<close>), or
  a \<^verbatim>\<open>BaseException\<close> that is none, such as \<^verbatim>\<open>SystemExit\<close>, \<^verbatim>\<open>KeyboardInterrupt\<close>
  or the \<^verbatim>\<open>CancelledError\<close> of a cancelled future (\<open>RaisedBase\<close>).
\<close>

datatype task = Returned ocr_result | Raised string | RaisedBase string

text \<open>
  Everything the menu does to its surroundings, in the order it does it: the two signals,
  message boxes, speech announcements, sounds, the options dialog, the background task
  started by \<^verbatim>\<open>AsyncSnakDialog\<close>, the log, the keyboard focus and the status line.
\<close>

datatype event =
    OcrStarted
  | OcrEnded bool
  | MessageBox string
  | Announce string
  | PlaySound string
  | OptionsDialog "ocr_options option" bool
  | RunTask ocr_request
  | LogException string
  | SetFocusFromKbd
  | SetStatus string

text \<open>
  The state the menu reads and writes: \<^verbatim>\<open>service.stored_options\<close>,
  \<^verbatim>\<open>service.saved_scanned_pages\<close>, the \<^verbatim>\<open>threading.Event\<close> \<^verbatim>\<open>_ocr_cancelled\<close>,
  the check mark of \<^verbatim>\<open>auto_scan_item\<close>, \<^verbatim>\<open>reader.current_page\<close>, and of the view the
  content and the text direction it shows.
\<close>

record state =
  stored_options :: "ocr_options option"
  saved_scanned_pages :: "page \<rightharpoonup> string"
  ocr_cancelled :: bool
  auto_scan_item :: bool
  current_page :: page
  content :: string
  text_direction :: bool
  trace :: "event list"

text \<open>
  What the menu asks of its collaborators: the languages of the current engine, the answer
  of the modal options dialog (\<open>None\<close> when the user cancels), given the languages, the
  previously stored options and the \<^verbatim>\<open>force_save\<close> keyword, and the image of a page at
  a zoom factor.
\<close>

record env =
  get_sorted_languages :: "language list"
  show_modal :: "language list \<Rightarrow> ocr_options option \<Rightarrow> bool \<Rightarrow> ocr_options option"
  get_page_image :: "page \<Rightarrow> int \<Rightarrow> image"

subsection \<open>The view and the log\<close>

definition emit :: "event list \<Rightarrow> state \<Rightarrow> state" where
  "emit es s = s\<lparr>trace := trace s @ es\<rparr>"

definition set_content :: "string \<Rightarrow> state \<Rightarrow> state" where
  "set_content text s = s\<lparr>content := text\<rparr>"

definition set_text_direction :: "bool \<Rightarrow> state \<Rightarrow> state" where
  "set_text_direction rtl s = s\<lparr>text_direction := rtl\<rparr>"

subsection \<open>Options resolution\<close>

text \<open>
  \<^verbatim>\<open>_get_ocr_options_from_dlg\<close>: without a language, a message box and \<^verbatim>\<open>return\<close>
  (that is, \<open>None\<close>); otherwise the scanned pages are cleared and the dialog is shown.
\<close>

definition no_languages_message :: event where
  "no_languages_message = MessageBox ''No Languages for OCR''"

definition get_ocr_options_from_dlg ::
  "env \<Rightarrow> ocr_options option \<Rightarrow> bool \<Rightarrow> state \<Rightarrow> ocr_options option \<times> state" where
  "get_ocr_options_from_dlg e last_stored_options force_save s =
     (let langs = get_sorted_languages e in
      if langs = [] then (None, emit [no_languages_message] s)
      else
        let s1 = s\<lparr>saved_scanned_pages := Map.empty\<rparr>;
            s2 = emit [OptionsDialog last_stored_options force_save] s1
        in (show_modal e langs last_stored_options force_save, s2))"

text \<open>\<^verbatim>\<open>_get_ocr_options(from_cache=True, **dlg_kw)\<close>.\<close>

definition get_ocr_options ::
  "env \<Rightarrow> bool \<Rightarrow> bool \<Rightarrow> state \<Rightarrow> ocr_options option \<times> state" where
  "get_ocr_options e from_cache force_save s =
     (let last_stored_opts = stored_options s;
          s1 = (if \<not> from_cache
                then s\<lparr>stored_options := None, saved_scanned_pages := Map.empty\<rparr>
                else s)
      in case stored_options s1 of
           Some stored \<Rightarrow> (Some stored, s1)
         | None \<Rightarrow>
             (case get_ocr_options_from_dlg e last_stored_opts force_save s1 of
                (opts, s2) \<Rightarrow>
                  (opts,
                   s2\<lparr>stored_options :=
                        (case opts of
                           None \<Rightarrow> None
                         | Some o' \<Rightarrow> if store_options o' then Some o' else None)\<rparr>)))"

subsection \<open>Scanning the current page\<close>

text \<open>The closure \<^verbatim>\<open>_ocr_callback\<close> of \<^verbatim>\<open>onScanCurrentPage\<close>; it captures the options.\<close>

definition ocr_callback :: "ocr_options \<Rightarrow> ocr_result \<Rightarrow> state \<Rightarrow> state" where
  "ocr_callback ocr_opts ocr_result s =
     (let page_number = cookie ocr_result;
          text = recognized_text ocr_result;
          s1 = s\<lparr>saved_scanned_pages := (saved_scanned_pages s)(page_number \<mapsto> text)\<rparr>
      in if page_number = current_page s1
         then set_text_direction (is_rtl (language ocr_opts)) (set_content text s1)
         else s1)"

text \<open>
  \<^verbatim>\<open>_run_ocr\<close>: the started signal, the start sound, and the dialog that runs
  \<^verbatim>\<open>preprocess_and_recognize\<close> on the request in the background.
\<close>

definition run_ocr :: "ocr_request \<Rightarrow> state \<Rightarrow> state" where
  "run_ocr ocr_request s = emit [OcrStarted, PlaySound ''ocr_start'', RunTask ocr_request] s"

text \<open>\<^verbatim>\<open>onScanCurrentPage\<close>.\<close>

definition onScanCurrentPage :: "env \<Rightarrow> state \<Rightarrow> state" where
  "onScanCurrentPage e s =
     (let s0 = s\<lparr>ocr_cancelled := False\<rparr> in
      case get_ocr_options e True False s0 of
        (None, s1) \<Rightarrow> emit [Announce ''Canceled''] s1
      | (Some ocr_opts, s1) \<Rightarrow>
          (case saved_scanned_pages s1 (current_page s1) of
             Some text \<Rightarrow> set_content text s1
           | None \<Rightarrow>
               run_ocr
                 \<lparr>request_language = language ocr_opts,
                  request_image = get_page_image e (current_page s1) (zoom_factor ocr_opts),
                  request_pipelines = image_processing_pipelines ocr_opts,
                  request_cookie = Some (current_page s1)\<rparr>
                 s1))"

subsection \<open>Delivery of a result, cancellation\<close>

text \<open>
  \<^verbatim>\<open>_process_ocr_result(callback, task)\<close>. The result is the exception that leaves the
  function, if any, and the state it leaves. With the flag set the task's result is not
  asked for. Otherwise \<^verbatim>\<open>task.result()\<close> is called inside \<^verbatim>\<open>try\<close>, and the handler
  is \<^verbatim>\<open>except Exception\<close>: an instance of \<^verbatim>\<open>Exception\<close> is logged and answered with
  the faulted signal, any other exception passes the handler and leaves the function
  before anything is logged or sent.
\<close>

definition process_ocr_result ::
  "(ocr_result \<Rightarrow> state \<Rightarrow> state) \<Rightarrow> task \<Rightarrow> state \<Rightarrow> string option \<times> state" where
  "process_ocr_result callback t s =
     (if ocr_cancelled s
      then (None, (emit [OcrEnded True] s)\<lparr>ocr_cancelled := False\<rparr>)
      else case t of
             RaisedBase exn \<Rightarrow> (Some exn, s)
           | Raised exn \<Rightarrow> (None, emit [LogException exn, OcrEnded True] s)
           | Returned ocr_result \<Rightarrow>
               (None,
                emit [PlaySound ''ocr_end'', Announce ''Scan finished.'', SetFocusFromKbd,
                      OcrEnded False]
                  (callback ocr_result s)))"

text \<open>\<^verbatim>\<open>_on_ocr_cancelled\<close>, the dismiss callback of the wait dialog.\<close>

definition on_ocr_cancelled :: "state \<Rightarrow> state" where
  "on_ocr_cancelled s =
     emit [Announce ''OCR canceled'', PlaySound ''ocr_end''] (s\<lparr>ocr_cancelled := True\<rparr>)"

subsection \<open>The other handlers that touch the options and the scanned pages\<close>

definition onChangeOCROptions :: "env \<Rightarrow> state \<Rightarrow> state" where
  "onChangeOCROptions e s = snd (get_ocr_options e False False s)"

definition on_reader_unloaded :: "state \<Rightarrow> state" where
  "on_reader_unloaded s =
     s\<lparr>stored_options := None, saved_scanned_pages := Map.empty, auto_scan_item := False\<rparr>"

text \<open>
  The closure \<^verbatim>\<open>_ocr_callback\<close> of \<^verbatim>\<open>onScanImageFile\<close>; it captures the options
  of the dialog. \<open>ready\<close> is \<^verbatim>\<open>reader.ready\<close> as the callback finds it. Of the view's
  \<^verbatim>\<open>unloadCurrentEbook\<close> the menu sees the unloaded signal of the reader, which
  \<^verbatim>\<open>_on_reader_unloaded\<close> handles.
\<close>

definition image_ocr_callback :: "ocr_options \<Rightarrow> bool \<Rightarrow> ocr_result \<Rightarrow> state \<Rightarrow> state" where
  "image_ocr_callback options ready ocr_result s =
     (let text = recognized_text ocr_result;
          s1 = (if ready then on_reader_unloaded s else s)
      in emit [SetStatus ''OCR Results'']
           (set_text_direction (is_rtl (language options)) (set_content text s1)))"

text \<open>
  \<^verbatim>\<open>onAutoScanPages\<close>. The menu item is a check item: the toolkit has toggled it
  before the handler runs, so the handler receives its new state. The text control of the
  view holds the displayed content.
\<close>

definition onAutoScanPages :: "env \<Rightarrow> bool \<Rightarrow> state \<Rightarrow> state" where
  "onAutoScanPages e checked s =
     (let s0 = s\<lparr>auto_scan_item := checked\<rparr>;
          s1 = (if stored_options s0 = None then snd (get_ocr_options e True True s0) else s0);
          s2 = (if auto_scan_item s1
                then emit [Announce ''Automatic OCR is enabled''] s1
                else emit [Announce ''Automatic OCR is disabled''] s1)
      in if content s2 = [] then onScanCurrentPage e s2 else s2)"

text \<open>
  What \<^verbatim>\<open>onScanToTextFile\<close> and \<^verbatim>\<open>onScanImageFile\<close> do to this state is their
  options resolution: the first resolves without the cache, the second shows the dialog
  directly.
\<close>

definition onScanToTextFile_options :: "env \<Rightarrow> state \<Rightarrow> ocr_options option \<times> state" where
  "onScanToTextFile_options e s = get_ocr_options e False True s"

definition onScanImageFile_options :: "env \<Rightarrow> state \<Rightarrow> ocr_options option \<times> state" where
  "onScanImageFile_options e s = get_ocr_options_from_dlg e None True s"

definition on_reader_page_changed :: "env \<Rightarrow> page \<Rightarrow> state \<Rightarrow> state" where
  "on_reader_page_changed e current s =
     (let s1 = s\<lparr>current_page := current\<rparr> in
      if auto_scan_item s1 then onScanCurrentPage e s1 else s1)"

text \<open>The events a call added to the trace, and the ended signals among them.\<close>

definition new_events :: "state \<Rightarrow> state \<Rightarrow> event list" where
  "new_events s s' = drop (length (trace s)) (trace s')"

fun is_ended :: "event \<Rightarrow> bool" where
  "is_ended (OcrEnded _) = True"
| "is_ended _ = False"

text \<open>
  The states the menu can be in. The service starts a document session with no stored
  options and no scanned page; from there every handler above may run, with any answers of
  its collaborators. A result may be delivered to the callback of any earlier scan. The
  reader and the view, outside the menu, turn pages and show their text.
\<close>

inductive reachable :: "state \<Rightarrow> bool" where
  session_start:
    "stored_options s = None \<Longrightarrow> saved_scanned_pages s = Map.empty \<Longrightarrow> reachable s"
| scan_current_page: "reachable s \<Longrightarrow> reachable (onScanCurrentPage e s)"
| change_options: "reachable s \<Longrightarrow> reachable (onChangeOCROptions e s)"
| auto_scan: "reachable s \<Longrightarrow> reachable (onAutoScanPages e checked s)"
| scan_to_text_file: "reachable s \<Longrightarrow> reachable (snd (onScanToTextFile_options e s))"
| scan_image_file: "reachable s \<Longrightarrow> reachable (snd (onScanImageFile_options e s))"
| result_delivered:
    "reachable s \<Longrightarrow> reachable (snd (process_ocr_result (ocr_callback ocr_opts) t s))"
| image_result_delivered:
    "reachable s \<Longrightarrow>
       reachable (snd (process_ocr_result (image_ocr_callback ocr_opts ready) t s))"
| cancelled: "reachable s \<Longrightarrow> reachable (on_ocr_cancelled s)"
| unloaded: "reachable s \<Longrightarrow> reachable (on_reader_unloaded s)"
| page_changed: "reachable s \<Longrightarrow> reachable (on_reader_page_changed e current s)"
| view_changed:
    "reachable s \<Longrightarrow>
       reachable (s\<lparr>current_page := p, content := shown, text_direction := rtl\<rparr>)"

text \<open>Stored options are options that asked to be stored.\<close>

definition stored_options_ok :: "state \<Rightarrow> bool" where
  "stored_options_ok s =
     (case stored_options s of None \<Rightarrow> True | Some stored \<Rightarrow> store_options stored)"

section \<open>Batch text extraction (\<^verbatim>\<open>_continue_with_text_extraction\<close>)\<close>

text \<open>
  What the progress dialog and the user see of a batch run: \<^verbatim>\<open>Update(value, message)\<close>
  with the message \<^verbatim>\<open>Scanning page {progress} of {total}\<close> kept as its two numbers,
  \<^verbatim>\<open>Dismiss\<close>, the message box of the done callback with the total and the file, and
  the focus given back to the text control.
\<close>

type_synonym path = string

datatype progress_event =
    Update nat nat nat
  | Dismiss
  | Completed nat path
  | SetFocus

text \<open>
  Modelled from the spec: the engine's \<^verbatim>\<open>scan_to_text\<close> and the \<^verbatim>\<open>QueueProcess\<close>
  that runs it are not among the sources. Following section 4.4 of the specification, the
  process goes through the pages of the document in order; the abort hook is consulted
  between pages, and once it has been invoked no further page is processed; for each page
  processed the recognized text is appended to the output and the page's index is emitted
  as progress. The result is the progress emitted and the text written. \<open>aborted i\<close>
  says that the hook has been invoked by the time page \<open>i\<close> is due.
\<close>

fun scan_to_text ::
  "(image \<Rightarrow> string) \<Rightarrow> (nat \<Rightarrow> bool) \<Rightarrow> nat \<Rightarrow> image list \<Rightarrow> nat list \<times> string" where
  "scan_to_text recognize aborted i [] = ([], [])"
| "scan_to_text recognize aborted i (p # ps) =
     (if aborted i then ([], [])
      else case scan_to_text recognize aborted (Suc i) ps of
             (progress, text) \<Rightarrow> (i # progress, recognize p @ text))"

text \<open>
  \<^verbatim>\<open>_continue_with_text_extraction\<close>: one \<^verbatim>\<open>Update(progress + 1, ...)\<close> per progress
  value of the process, then \<^verbatim>\<open>Dismiss\<close> and the focus. Modelled from the spec: the
  done callback (the message box) fires on normal completion, not on abort.
\<close>

definition continue_with_text_extraction ::
  "(image \<Rightarrow> string) \<Rightarrow> (nat \<Rightarrow> bool) \<Rightarrow> image list \<Rightarrow> path \<Rightarrow> progress_event list \<times> string" where
  "continue_with_text_extraction recognize aborted doc output_file =
     (let total = length doc in
      case scan_to_text recognize aborted 0 doc of
        (progresses, written) \<Rightarrow>
          (map (\<lambda>progress. Update (progress + 1) progress total) progresses
             @ [Dismiss]
             @ (if length progresses = total then [Completed total output_file] else [])
             @ [SetFocus],
           written))"

fun update_value :: "progress_event \<Rightarrow> nat option" where
  "update_value (Update v _ _) = Some v"
| "update_value _ = None"

definition updates :: "progress_event list \<Rightarrow> nat list" where
  "updates es = List.map_filter update_value es"

section \<open>The Word document reader (\<^verbatim>\<open>bookworm/document/formats/word.py\<close>)\<close>

type_synonym bytes = string

datatype document_uri = DocumentUri string path

text \<open>
  What \<^verbatim>\<open>read\<close> can raise: \<^verbatim>\<open>ChangeDocument(old_uri, new_uri, reason)\<close>, and what
  the calls it makes raise: \<^verbatim>\<open>get_file_system_path\<close>, the \<^verbatim>\<open>mkdir\<close> of the storage
  directory, the opening of a file that is not there, \<^verbatim>\<open>mammoth\<close>, the HTML parser,
  the reader of the document's properties, and \<^verbatim>\<open>write_text\<close> (an error of the file
  system or of the encoding).
\<close>

datatype exn =
    ChangeDocument document_uri document_uri string
  | PathError string
  | StorageError string
  | FileNotFoundError path
  | MammothError string
  | ParserError string
  | DocxError string
  | WriteError string

text \<open>
  \<^verbatim>\<open>target_file.write_text(html_string, encoding="utf-8")\<close> opens the file for writing,
  which creates it, and then encodes and writes. It either writes the encoded text, or
  raises and leaves what it got to: nothing when the file could not be opened, an empty
  file when the text could not be encoded, a part of the text otherwise.
\<close>

datatype write_result = Written bytes | WriteFailed string "bytes option"

text \<open>
  The collaborators of the reader, each with the error it may raise (\<open>Inl\<close>, or
  \<open>Some\<close> for the \<^verbatim>\<open>mkdir\<close>): \<^verbatim>\<open>get_file_system_path\<close>; the storage directory
  \<^verbatim>\<open>home_data_path("docx_as_html")\<close> and its \<^verbatim>\<open>mkdir(parents=True, exist_ok=True)\<close>;
  \<^verbatim>\<open>generate_file_md5\<close> as a function of the file's bytes; \<^verbatim>\<open>mammoth.convert_to_html\<close>
  (its \<^verbatim>\<open>value\<close>); the HTML parser's clean-up of the body (unwrapping \<^verbatim>\<open>a\<close>, removing
  \<^verbatim>\<open>img\<close> and \<^verbatim>\<open>style\<close>, \<^verbatim>\<open>body.html\<close>); the title and author of the core
  properties; \<^verbatim>\<open>write_text\<close> on a path and a text; and the total ones, \<^verbatim>\<open>str.strip\<close>,
  \<^verbatim>\<open>str.lower\<close>, \<^verbatim>\<open>Path.stem\<close>, \<^verbatim>\<open>escape_html\<close>, \<^verbatim>\<open>NEWLINE\<close> and
  \<^verbatim>\<open>DocumentUri.from_filename\<close>.
\<close>

record word_env =
  get_file_system_path :: "document_uri \<Rightarrow> string + path"
  storage_area :: path
  mkdir_storage_area :: "string option"
  generate_file_md5 :: "bytes \<Rightarrow> string"
  convert_to_html :: "bytes \<Rightarrow> string + string"
  clean_body :: "string \<Rightarrow> string + string"
  core_properties :: "bytes \<Rightarrow> string + string \<times> string option"
  write_text :: "path \<Rightarrow> string \<Rightarrow> write_result"
  strip :: "string \<Rightarrow> string"
  lower :: "string \<Rightarrow> string"
  stem :: "path \<Rightarrow> string"
  escape_html :: "string \<Rightarrow> string"
  NEWLINE :: string
  from_filename :: "path \<Rightarrow> document_uri"

text \<open>
  The file system, as the regular files the process can read with their bytes, and the log
  of the documents handed to the external converter.
\<close>

record word_state =
  files :: "path \<rightharpoonup> bytes"
  converter_calls :: "bytes list"

text \<open>\<^verbatim>\<open>sep.join(xs)\<close>.\<close>

fun join :: "string \<Rightarrow> string list \<Rightarrow> string" where
  "join sep [] = []"
| "join sep [x] = x"
| "join sep (x # y # ys) = x @ sep @ join sep (y # ys)"

text \<open>
  \<^verbatim>\<open>make_proper_html(html_string, docx_file_path)\<close>; the third argument is the content of
  the file at that path, which \<^verbatim>\<open>DocxDocumentReader\<close> opens.
\<close>

definition make_proper_html :: "word_env \<Rightarrow> string \<Rightarrow> path \<Rightarrow> bytes \<Rightarrow> exn + string" where
  \<open>make_proper_html we html_string docx_file_path docx =
     (case clean_body we html_string of
        Inl err \<Rightarrow> Inl (ParserError err)
      | Inr body \<Rightarrow>
          (case core_properties we docx of
             Inl err \<Rightarrow> Inl (DocxError err)
           | Inr (title, author) \<Rightarrow>
               let doc_title0 = strip we title;
                   doc_title =
                     (if doc_title0 = [] \<or> lower we doc_title0 = ''word document''
                      then strip we (stem we docx_file_path)
                      else doc_title0);
                   doc_author = escape_html we (case author of None \<Rightarrow> [] | Some a \<Rightarrow> a)
               in Inr (join (NEWLINE we)
                         [''<!DOCTYPE html>'',
                          ''<html>'',
                          ''<head>'',
                          ''<meta charset="utf-8"/>'',
                          ''<meta name="author" content="'' @ doc_author @ ''"/>'',
                          ''<title>'' @ escape_html we doc_title @ ''</title>'',
                          ''</head>'',
                          body,
                          ''</html>''])))\<close>

text \<open>The name of the converted file of a document with the given bytes.\<close>

definition target_file :: "word_env \<Rightarrow> bytes \<Rightarrow> path" where
  "target_file we docx = storage_area we @ ''/'' @ generate_file_md5 we docx @ ''.html''"

text \<open>
  \<^verbatim>\<open>get_converted_filename(filename)\<close>. An exception of a step ends the call there;
  a failed \<^verbatim>\<open>write_text\<close> leaves at the target what it got to.
\<close>

definition get_converted_filename ::
  "word_env \<Rightarrow> path \<Rightarrow> word_state \<Rightarrow> (exn + path) \<times> word_state" where
  "get_converted_filename we filename ws =
     (case mkdir_storage_area we of
        Some err \<Rightarrow> (Inl (StorageError err), ws)
      | None \<Rightarrow>
          (case files ws filename of
             None \<Rightarrow> (Inl (FileNotFoundError filename), ws)
           | Some docx \<Rightarrow>
               let target = target_file we docx in
               if files ws target \<noteq> None then (Inr target, ws)
               else
                 let ws1 = ws\<lparr>converter_calls := converter_calls ws @ [docx]\<rparr> in
                 (case convert_to_html we docx of
                    Inl err \<Rightarrow> (Inl (MammothError err), ws1)
                  | Inr val \<Rightarrow>
                      (case make_proper_html we val filename docx of
                         Inl err \<Rightarrow> (Inl err, ws1)
                       | Inr html_string \<Rightarrow>
                           (case write_text we target html_string of
                              WriteFailed err left \<Rightarrow>
                                (Inl (WriteError err),
                                 ws1\<lparr>files := (files ws1)(target := left)\<rparr>)
                            | Written data \<Rightarrow>
                                (Inr target,
                                 ws1\<lparr>files := (files ws1)(target \<mapsto> data)\<rparr>))))))"

text \<open>
  \<^verbatim>\<open>read\<close>. The right summand is the page content a reader would return; an exception
  of the worker's call is raised again by \<^verbatim>\<open>result()\<close>.
\<close>

definition read :: "word_env \<Rightarrow> document_uri \<Rightarrow> word_state \<Rightarrow> (exn + string) \<times> word_state" where
  "read we uri ws =
     (case get_file_system_path we uri of
        Inl err \<Rightarrow> (Inl (PathError err), ws)
      | Inr docx_file_path \<Rightarrow>
          (case get_converted_filename we docx_file_path ws of
             (Inl err, ws1) \<Rightarrow> (Inl err, ws1)
           | (Inr converted_file, ws1) \<Rightarrow>
               (Inl (ChangeDocument uri (from_filename we converted_file)
                       ''Docx converted to html''),
                ws1)))"

section \<open>Concrete sessions\<close>

definition english :: language where
  "english = \<lparr>lang_name = ''English'', is_rtl = False\<rparr>"

definition arabic :: language where
  "arabic = \<lparr>lang_name = ''Arabic'', is_rtl = True\<rparr>"

definition once_options :: ocr_options where
  "once_options =
     \<lparr>language = english, zoom_factor = 2, image_processing_pipelines = [],
      store_options = False\<rparr>"

definition kept_options :: ocr_options where
  "kept_options =
     \<lparr>language = arabic, zoom_factor = 1, image_processing_pipelines = [],
      store_options = True\<rparr>"

definition answering :: "ocr_options option \<Rightarrow> env" where
  "answering answer =
     \<lparr>get_sorted_languages = [english, arabic],
      show_modal = (\<lambda>langs last force_save. answer),
      get_page_image = (\<lambda>p zoom. ''scan'')\<rparr>"

definition no_language :: env where
  "no_language =
     \<lparr>get_sorted_languages = [],
      show_modal = (\<lambda>langs last force_save. Some kept_options),
      get_page_image = (\<lambda>p zoom. ''scan'')\<rparr>"

definition session_started :: state where
  "session_started =
     \<lparr>stored_options = None, saved_scanned_pages = Map.empty, ocr_cancelled = False,
      auto_scan_item = False, current_page = 1, content = [], text_direction = False,
      trace = []\<rparr>"

definition page_one :: ocr_result where
  "page_one = \<lparr>cookie = 1, recognized_text = ''first page''\<rparr>"

text \<open>
  A session in which page 1 has been scanned with options the user did not ask to keep,
  and one in which the options were kept.
\<close>

definition scanned_once :: state where
  "scanned_once =
     snd (process_ocr_result (ocr_callback once_options) (Returned page_one)
            (onScanCurrentPage (answering (Some once_options)) session_started))"

definition scanned_kept :: state where
  "scanned_kept =
     snd (process_ocr_result (ocr_callback kept_options) (Returned page_one)
            (onScanCurrentPage (answering (Some kept_options)) session_started))"

definition cancelled_scan :: state where
  "cancelled_scan =
     on_ocr_cancelled (onScanCurrentPage (answering (Some once_options)) session_started)"

definition page_two :: ocr_result where
  "page_two = \<lparr>cookie = 2, recognized_text = ''second page''\<rparr>"

text \<open>
  A three-page document, an engine that reads each image as its name, and a user who
  never aborts or who aborts once two pages are done.
\<close>

definition three_pages :: "image list" where
  "three_pages = [''one '', ''two '', ''three '']"

definition never_aborted :: "nat \<Rightarrow> bool" where
  "never_aborted i = False"

definition aborted_after_two :: "nat \<Rightarrow> bool" where
  "aborted_after_two i = (2 \<le> i)"

text \<open>
  A storage directory with two Word files in the file system. The stand-ins for the
  libraries: the hash is the content itself, the converter wraps the content in a
  paragraph, the properties give a title and no author.
\<close>

definition plain_word_env :: word_env where
  "plain_word_env =
     \<lparr>get_file_system_path = (\<lambda>uri. case uri of DocumentUri fmt p \<Rightarrow> Inr p),
      storage_area = ''docx_as_html'',
      mkdir_storage_area = None,
      generate_file_md5 = (\<lambda>docx. docx),
      convert_to_html = (\<lambda>docx. Inr (''<p>'' @ docx @ ''</p>'')),
      clean_body = (\<lambda>html. Inr html),
      core_properties = (\<lambda>docx. Inr (''Report'', None)),
      write_text = (\<lambda>target html. Written html),
      strip = (\<lambda>x. x),
      lower = (\<lambda>x. x),
      stem = (\<lambda>x. x),
      escape_html = (\<lambda>x. x),
      NEWLINE = [CHR 0x0A],
      from_filename = DocumentUri ''html''\<rparr>"

definition two_documents :: word_state where
  "two_documents =
     \<lparr>files = [''a.docx'' \<mapsto> ''hello'', ''b.docx'' \<mapsto> ''world''], converter_calls = []\<rparr>"

definition first_converted :: word_state where
  "first_converted = snd (get_converted_filename plain_word_env ''a.docx'' two_documents)"

text \<open>
  Three more stand-ins: a digest that keeps the first four bytes only, with two documents
  that differ and share it, a converter that rejects what it is given, and a text that
  cannot be encoded, so that \<^verbatim>\<open>write_text\<close> leaves an empty file.
\<close>

definition short_digest_env :: word_env where
  "short_digest_env = plain_word_env\<lparr>generate_file_md5 := take 4\<rparr>"

definition colliding_documents :: word_state where
  "colliding_documents =
     \<lparr>files = [''a.docx'' \<mapsto> ''hello'', ''c.docx'' \<mapsto> ''hellfire''], converter_calls = []\<rparr>"

definition rejecting_env :: word_env where
  "rejecting_env = plain_word_env\<lparr>convert_to_html := (\<lambda>docx. Inl ''File is not a zip file'')\<rparr>"

definition unencodable_env :: word_env where
  "unencodable_env =
     plain_word_env\<lparr>write_text := (\<lambda>target html. WriteFailed ''UnicodeEncodeError'' (Some []))\<rparr>"

section \<open>Properties of the OCR menu\<close>

lemmas handler_defs =
  onScanCurrentPage_def get_ocr_options_def get_ocr_options_from_dlg_def
  process_ocr_result_def ocr_callback_def run_ocr_def on_ocr_cancelled_def emit_def
  set_content_def set_text_direction_def new_events_def no_languages_message_def Let_def

lemmas session_defs =
  scanned_once_def scanned_kept_def cancelled_scan_def session_started_def answering_def
  no_language_def once_options_def kept_options_def english_def arabic_def page_one_def
  page_two_def

subsection \<open>The paths of a delivery\<close>

lemma trace_ocr_callback: "trace (ocr_callback ocr_opts r s) = trace s"
  by (simp add: ocr_callback_def set_content_def set_text_direction_def Let_def)

lemma trace_image_ocr_callback:
  "trace (image_ocr_callback ocr_opts ready r s) = trace s @ [SetStatus ''OCR Results'']"
  by (simp add: image_ocr_callback_def on_reader_unloaded_def set_content_def
        set_text_direction_def emit_def Let_def)

lemma process_ocr_result_cancelled:
  "ocr_cancelled s \<Longrightarrow>
     process_ocr_result callback t s
       = (None, s\<lparr>trace := trace s @ [OcrEnded True], ocr_cancelled := False\<rparr>)"
  by (simp add: process_ocr_result_def emit_def)

lemma process_ocr_result_returned:
  "\<not> ocr_cancelled s \<Longrightarrow>
     process_ocr_result callback (Returned r) s
       = (None,
          emit [PlaySound ''ocr_end'', Announce ''Scan finished.'', SetFocusFromKbd,
                OcrEnded False] (callback r s))"
  by (simp add: process_ocr_result_def)

lemma process_ocr_result_raised:
  "\<not> ocr_cancelled s \<Longrightarrow>
     process_ocr_result callback (Raised exn) s
       = (None, s\<lparr>trace := trace s @ [LogException exn, OcrEnded True]\<rparr>)"
  by (simp add: process_ocr_result_def emit_def)

lemma process_ocr_result_raised_base:
  "\<not> ocr_cancelled s \<Longrightarrow> process_ocr_result callback (RaisedBase exn) s = (Some exn, s)"
  by (simp add: process_ocr_result_def)

text \<open>
  A delivery sends the ended signals the callback sends, and at most one of its own:
  none when an exception leaves it, one otherwise.
\<close>

lemma ended_of_delivery:
  assumes "\<And>r. t = Returned r \<Longrightarrow> trace (callback r s) = trace s @ es"
  shows "filter is_ended (new_events s (snd (process_ocr_result callback t s)))
           = (if ocr_cancelled s then [OcrEnded True]
              else case t of
                     Returned r \<Rightarrow> filter is_ended es @ [OcrEnded False]
                   | Raised exn \<Rightarrow> [OcrEnded True]
                   | RaisedBase exn \<Rightarrow> [])"
proof (cases "ocr_cancelled s")
  case True
  then show ?thesis
    by (simp add: process_ocr_result_cancelled new_events_def)
next
  case False
  then show ?thesis
    using assms
    by (cases t)
       (simp_all add: process_ocr_result_returned process_ocr_result_raised
          process_ocr_result_raised_base new_events_def emit_def)
qed

lemma ended_at_most_once:
  assumes "\<And>r. t = Returned r \<Longrightarrow> trace (callback r s) = trace s @ es"
    and "filter is_ended es = []"
  shows "length (filter is_ended (new_events s (snd (process_ocr_result callback t s)))) \<le> 1"
proof -
  have "filter is_ended (new_events s (snd (process_ocr_result callback t s)))
           = (if ocr_cancelled s then [OcrEnded True]
              else case t of
                     Returned r \<Rightarrow> filter is_ended es @ [OcrEnded False]
                   | Raised exn \<Rightarrow> [OcrEnded True]
                   | RaisedBase exn \<Rightarrow> [])"
    by (rule ended_of_delivery) (rule assms(1))
  with assms(2) show ?thesis
    by (simp split: task.splits)
qed

subsection \<open>Options resolution\<close>

lemma get_ocr_options_stored:
  "stored_options s = Some stored \<Longrightarrow> get_ocr_options e True force_save s = (Some stored, s)"
  by (simp add: get_ocr_options_def)

lemma get_ocr_options_from_dlg_no_language:
  "get_sorted_languages e = [] \<Longrightarrow>
     get_ocr_options_from_dlg e previous force_save s = (None, emit [no_languages_message] s)"
  by (simp add: get_ocr_options_from_dlg_def)

lemma get_ocr_options_from_dlg_shown:
  "get_sorted_languages e \<noteq> [] \<Longrightarrow>
     get_ocr_options_from_dlg e previous force_save s
       = (show_modal e (get_sorted_languages e) previous force_save,
          s\<lparr>saved_scanned_pages := Map.empty,
            trace := trace s @ [OptionsDialog previous force_save]\<rparr>)"
  by (simp add: get_ocr_options_from_dlg_def emit_def)

lemma get_ocr_options_uncached_clears:
  "saved_scanned_pages (snd (get_ocr_options e False force_save s)) = Map.empty"
  by (cases "get_sorted_languages e = []")
     (simp_all add: get_ocr_options_def get_ocr_options_from_dlg_no_language
        get_ocr_options_from_dlg_shown emit_def Let_def)

lemma get_ocr_options_slot:
  assumes "stored_options_ok s"
    and "get_ocr_options e from_cache force_save s = (Some opts, s')"
  shows "stored_options s' = (if store_options opts then Some opts else None)"
proof (cases "from_cache \<and> stored_options s \<noteq> None")
  case True
  then obtain stored where st: "stored_options s = Some stored" and fc: from_cache
    by auto
  with assms(2) have "opts = stored" "s' = s"
    by (simp_all add: get_ocr_options_stored)
  with st assms(1) show ?thesis
    by (simp add: stored_options_ok_def)
next
  case False
  then show ?thesis
    using assms(2)
    by (cases "get_sorted_languages e = []")
       (auto simp add: get_ocr_options_def get_ocr_options_from_dlg_no_language
          get_ocr_options_from_dlg_shown emit_def split: if_splits)
qed


subsection \<open>Stored options asked to be stored, in every reachable state\<close>

lemma stored_options_ok_get_ocr_options:
  "stored_options_ok s \<Longrightarrow> stored_options_ok (snd (get_ocr_options e from_cache force_save s))"
  by (cases "get_sorted_languages e = []")
     (auto simp add: get_ocr_options_def get_ocr_options_from_dlg_no_language
        get_ocr_options_from_dlg_shown emit_def stored_options_ok_def
        split: option.splits if_splits)

lemma stored_options_get_ocr_options_from_dlg:
  "stored_options (snd (get_ocr_options_from_dlg e previous force_save s)) = stored_options s"
  by (simp add: get_ocr_options_from_dlg_def emit_def Let_def)

lemma stored_options_ocr_callback:
  "stored_options (ocr_callback ocr_opts r s) = stored_options s"
  by (simp add: ocr_callback_def set_content_def set_text_direction_def Let_def)

lemma stored_options_ok_image_ocr_callback:
  "stored_options_ok s \<Longrightarrow> stored_options_ok (image_ocr_callback ocr_opts ready r s)"
  by (simp add: image_ocr_callback_def on_reader_unloaded_def set_content_def
        set_text_direction_def emit_def stored_options_ok_def Let_def)

lemma stored_options_ok_process_ocr_result:
  assumes "stored_options_ok s" and "\<And>r. stored_options_ok (callback r s)"
  shows "stored_options_ok (snd (process_ocr_result callback t s))"
  using assms
  by (cases t) (simp_all add: process_ocr_result_def emit_def stored_options_ok_def)

lemma stored_options_ok_onScanCurrentPage:
  assumes "stored_options_ok s"
  shows "stored_options_ok (onScanCurrentPage e s)"
proof -
  let ?s0 = "s\<lparr>ocr_cancelled := False\<rparr>"
  obtain opts s1 where g: "get_ocr_options e True False ?s0 = (opts, s1)"
    by (cases "get_ocr_options e True False ?s0")
  from assms have "stored_options_ok ?s0"
    by (simp add: stored_options_ok_def)
  then have "stored_options_ok (snd (get_ocr_options e True False ?s0))"
    by (rule stored_options_ok_get_ocr_options)
  with g have "stored_options_ok s1"
    by simp
  with g show ?thesis
    by (simp add: onScanCurrentPage_def stored_options_ok_def emit_def set_content_def
          run_ocr_def split: option.splits)
qed

lemma stored_options_ok_onAutoScanPages:
  assumes "stored_options_ok s"
  shows "stored_options_ok (onAutoScanPages e checked s)"
proof -
  let ?s0 = "s\<lparr>auto_scan_item := checked\<rparr>"
  let ?s1 = "if stored_options ?s0 = None then snd (get_ocr_options e True True ?s0) else ?s0"
  let ?s2 = "if auto_scan_item ?s1
             then emit [Announce ''Automatic OCR is enabled''] ?s1
             else emit [Announce ''Automatic OCR is disabled''] ?s1"
  from assms have "stored_options_ok ?s0"
    by (simp add: stored_options_ok_def)
  then have "stored_options_ok ?s1"
    by (simp add: stored_options_ok_get_ocr_options)
  then have ok2: "stored_options_ok ?s2"
    by (simp add: stored_options_ok_def emit_def)
  have "onAutoScanPages e checked s = (if content ?s2 = [] then onScanCurrentPage e ?s2 else ?s2)"
    by (simp add: onAutoScanPages_def Let_def)
  with ok2 show ?thesis
    by (simp add: stored_options_ok_onScanCurrentPage)
qed

lemma reachable_stored_options_ok: "reachable s \<Longrightarrow> stored_options_ok s"
proof (induction rule: reachable.induct)
  case (session_start s)
  then show ?case by (simp add: stored_options_ok_def)
next
  case (scan_current_page s e)
  then show ?case by (simp add: stored_options_ok_onScanCurrentPage)
next
  case (change_options s e)
  then show ?case by (simp add: onChangeOCROptions_def stored_options_ok_get_ocr_options)
next
  case (auto_scan s e checked)
  then show ?case by (simp add: stored_options_ok_onAutoScanPages)
next
  case (scan_to_text_file s e)
  then show ?case by (simp add: onScanToTextFile_options_def stored_options_ok_get_ocr_options)
next
  case (scan_image_file s e)
  then show ?case
    by (simp add: onScanImageFile_options_def stored_options_ok_def
          stored_options_get_ocr_options_from_dlg)
next
  case (result_delivered s ocr_opts t)
  then show ?case
    by (intro stored_options_ok_process_ocr_result)
       (simp_all add: stored_options_ok_def stored_options_ocr_callback)
next
  case (image_result_delivered s ocr_opts ready t)
  then show ?case
    by (intro stored_options_ok_process_ocr_result)
       (simp_all add: stored_options_ok_image_ocr_callback)
next
  case (cancelled s)
  then show ?case by (simp add: on_ocr_cancelled_def emit_def stored_options_ok_def)
next
  case (unloaded s)
  then show ?case by (simp add: on_reader_unloaded_def stored_options_ok_def)
next
  case (page_changed s e current)
  have "stored_options_ok (s\<lparr>current_page := current\<rparr>)"
    using page_changed.IH by (simp add: stored_options_ok_def)
  then show ?case
    by (simp add: on_reader_page_changed_def Let_def stored_options_ok_onScanCurrentPage)
next
  case (view_changed s p shown rtl)
  then show ?case by (simp add: stored_options_ok_def)
qed

subsection \<open>The claims\<close>

text \<open>
  Claim C1, as amended. When options are stored, so that resolution answers from them and
  shows no dialog, and the current page is among the scanned pages, \<^verbatim>\<open>onScanCurrentPage\<close>
  shows exactly the cached text of that page and does nothing else but clear the
  cancellation flag: the trace gains no event, so no task is started.
\<close>

theorem scan_shows_cached_page:
  "stored_options s = Some stored \<Longrightarrow>
   saved_scanned_pages s (current_page s) = Some text \<Longrightarrow>
     onScanCurrentPage e s = s\<lparr>ocr_cancelled := False, content := text\<rparr>
     \<and> content (onScanCurrentPage e s) = text
     \<and> new_events s (onScanCurrentPage e s) = []"
  by (simp add: onScanCurrentPage_def get_ocr_options_def set_content_def new_events_def)

theorem scan_shows_cached_page_witness:
  "stored_options (scanned_kept\<lparr>content := ''page as loaded''\<rparr>) = Some kept_options
   \<and> saved_scanned_pages (scanned_kept\<lparr>content := ''page as loaded''\<rparr>)
       (current_page (scanned_kept\<lparr>content := ''page as loaded''\<rparr>)) = Some ''first page''
   \<and> content (onScanCurrentPage (answering None) (scanned_kept\<lparr>content := ''page as loaded''\<rparr>))
       = ''first page''
   \<and> new_events (scanned_kept\<lparr>content := ''page as loaded''\<rparr>)
       (onScanCurrentPage (answering None) (scanned_kept\<lparr>content := ''page as loaded''\<rparr>)) = []"
proof -
  let ?s = "scanned_kept\<lparr>content := ''page as loaded''\<rparr>"
  have stored: "stored_options ?s = Some kept_options"
    by (simp add: session_defs handler_defs)
  have cached: "saved_scanned_pages ?s (current_page ?s) = Some ''first page''"
    by (simp add: session_defs handler_defs)
  from scan_shows_cached_page [OF stored cached, of "answering None"]
  have "content (onScanCurrentPage (answering None) ?s) = ''first page''"
    and "new_events ?s (onScanCurrentPage (answering None) ?s) = []"
    by blast+
  with stored cached show ?thesis by blast
qed

text \<open>
  Claim C1 as stated fails. Page 1 has been scanned with options the user did not ask to
  keep, so no options are stored although the page is cached. Scanning it again opens the
  options dialog, which clears the scanned pages, and a new task is started.
\<close>

theorem scan_cached_page_counterexample:
  "saved_scanned_pages scanned_once (current_page scanned_once) = Some ''first page''
   \<and> new_events scanned_once (onScanCurrentPage (answering (Some once_options)) scanned_once)
       = [OptionsDialog None False, OcrStarted, PlaySound ''ocr_start'',
          RunTask \<lparr>request_language = english, request_image = ''scan'',
                   request_pipelines = [], request_cookie = Some 1\<rparr>]
   \<and> saved_scanned_pages (onScanCurrentPage (answering (Some once_options)) scanned_once) 1
       = None"
  by (simp add: session_defs handler_defs)

text \<open>
  Claim C2. The result callback stores the recognized text under the result's cookie in
  every case. When the cookie is not the page currently displayed, the content and the text
  direction of the view stay as they are; when it is, the view shows the recognized text
  and takes the direction of the options' language.
\<close>

theorem ocr_callback_stores_and_displays:
  "saved_scanned_pages (ocr_callback ocr_opts r s)
     = (saved_scanned_pages s)(cookie r \<mapsto> recognized_text r)
   \<and> current_page (ocr_callback ocr_opts r s) = current_page s
   \<and> (cookie r \<noteq> current_page s \<longrightarrow>
        content (ocr_callback ocr_opts r s) = content s
        \<and> text_direction (ocr_callback ocr_opts r s) = text_direction s)
   \<and> (cookie r = current_page s \<longrightarrow>
        content (ocr_callback ocr_opts r s) = recognized_text r
        \<and> text_direction (ocr_callback ocr_opts r s) = is_rtl (language ocr_opts))"
  by (simp add: ocr_callback_def set_content_def set_text_direction_def Let_def)

theorem ocr_callback_stores_and_displays_witness:
  "cookie page_two \<noteq> current_page session_started
   \<and> saved_scanned_pages (ocr_callback kept_options page_two session_started) 2
       = Some ''second page''
   \<and> content (ocr_callback kept_options page_two session_started) = []
   \<and> text_direction (ocr_callback kept_options page_two session_started) = False
   \<and> cookie page_one = current_page session_started
   \<and> saved_scanned_pages (ocr_callback kept_options page_one session_started) 1
       = Some ''first page''
   \<and> content (ocr_callback kept_options page_one session_started) = ''first page''
   \<and> text_direction (ocr_callback kept_options page_one session_started) = True"
proof -
  have stale: "cookie page_two \<noteq> current_page session_started"
    by (simp add: session_defs)
  have current: "cookie page_one = current_page session_started"
    by (simp add: session_defs)
  from ocr_callback_stores_and_displays [of kept_options page_two session_started]
    ocr_callback_stores_and_displays [of kept_options page_one session_started]
    stale current
  show ?thesis by (simp add: session_defs)
qed

text \<open>
  Claim C3. When the cancellation flag is set as a completion is processed, which is the
  case when the cancellation is the last thing before the delivery, the result of
  processing does not depend on the callback or on the task (the callback is not invoked,
  no exception leaves): the only event is one ended signal with \<open>isfaulted = True\<close>, and
  the flag is cleared. And whatever the flag and the task, a delivery whose callback sends
  no ended signal itself sends at most one ended signal, so never a faulted and a
  non-faulted one. Both callbacks of the menu, that of a page scan and that of an image
  scan, send none.
\<close>

theorem cancelled_result_is_discarded:
  "(ocr_cancelled s \<longrightarrow>
      process_ocr_result callback t s
        = (None, s\<lparr>trace := trace s @ [OcrEnded True], ocr_cancelled := False\<rparr>)
      \<and> new_events s (snd (process_ocr_result callback t s)) = [OcrEnded True])
   \<and> process_ocr_result callback t (on_ocr_cancelled s)
       = (None,
          (on_ocr_cancelled s)
            \<lparr>trace := trace (on_ocr_cancelled s) @ [OcrEnded True], ocr_cancelled := False\<rparr>)
   \<and> ((\<forall>r. t = Returned r \<longrightarrow> trace (callback r s) = trace s @ es) \<longrightarrow>
        filter is_ended es = [] \<longrightarrow>
          length (filter is_ended (new_events s (snd (process_ocr_result callback t s)))) \<le> 1
          \<and> \<not> (OcrEnded True \<in> set (new_events s (snd (process_ocr_result callback t s)))
               \<and> OcrEnded False \<in> set (new_events s (snd (process_ocr_result callback t s)))))
   \<and> trace (ocr_callback ocr_opts r s) = trace s @ []
   \<and> trace (image_ocr_callback ocr_opts ready r s) = trace s @ [SetStatus ''OCR Results'']
   \<and> filter is_ended [SetStatus ''OCR Results''] = []"
proof -
  let ?new = "new_events s (snd (process_ocr_result callback t s))"
  have flag: "ocr_cancelled (on_ocr_cancelled s)"
    by (simp add: on_ocr_cancelled_def emit_def)
  have once: "length (filter is_ended ?new) \<le> 1
      \<and> \<not> (OcrEnded True \<in> set ?new \<and> OcrEnded False \<in> set ?new)"
    if cb: "\<forall>r. t = Returned r \<longrightarrow> trace (callback r s) = trace s @ es"
      and quiet: "filter is_ended es = []"
  proof -
    from cb have cb': "\<And>r. t = Returned r \<Longrightarrow> trace (callback r s) = trace s @ es"
      by blast
    have few: "length (filter is_ended ?new) \<le> 1"
      using cb' quiet by (rule ended_at_most_once)
    have sent: "filter is_ended ?new
           = (if ocr_cancelled s then [OcrEnded True]
              else case t of
                     Returned r \<Rightarrow> filter is_ended es @ [OcrEnded False]
                   | Raised exn \<Rightarrow> [OcrEnded True]
                   | RaisedBase exn \<Rightarrow> [])"
      by (rule ended_of_delivery) (rule cb')
    have both: "OcrEnded True \<in> set (filter is_ended ?new)
                  \<and> OcrEnded False \<in> set (filter is_ended ?new)"
      if "OcrEnded True \<in> set ?new \<and> OcrEnded False \<in> set ?new"
      using that by simp
    have "\<not> (OcrEnded True \<in> set (filter is_ended ?new)
               \<and> OcrEnded False \<in> set (filter is_ended ?new))"
      unfolding sent using quiet by (simp split: task.splits)
    with both have "\<not> (OcrEnded True \<in> set ?new \<and> OcrEnded False \<in> set ?new)"
      by blast
    with few show ?thesis by blast
  qed
  from once process_ocr_result_cancelled [OF flag, of callback t] show ?thesis
    by (simp add: process_ocr_result_cancelled new_events_def trace_ocr_callback
          trace_image_ocr_callback)
qed

theorem cancelled_result_is_discarded_witness:
  "ocr_cancelled cancelled_scan
   \<and> process_ocr_result (ocr_callback once_options) (Returned page_one) cancelled_scan
       = (None,
          cancelled_scan
            \<lparr>trace := trace cancelled_scan @ [OcrEnded True], ocr_cancelled := False\<rparr>)
   \<and> saved_scanned_pages
       (snd (process_ocr_result (ocr_callback once_options) (Returned page_one) cancelled_scan))
       1 = None
   \<and> content
       (snd (process_ocr_result (ocr_callback once_options) (Returned page_one) cancelled_scan))
       = []
   \<and> \<not> ocr_cancelled scanned_once
   \<and> length (filter is_ended
        (new_events scanned_once
           (snd (process_ocr_result (ocr_callback once_options) (Returned page_two)
                   scanned_once)))) \<le> 1"
proof -
  have flag: "ocr_cancelled cancelled_scan"
    by (simp add: session_defs handler_defs)
  have cache: "saved_scanned_pages cancelled_scan 1 = None" "content cancelled_scan = []"
    by (simp_all add: session_defs handler_defs)
  have clear: "\<not> ocr_cancelled scanned_once"
    by (simp add: session_defs handler_defs)
  from cancelled_result_is_discarded
         [of cancelled_scan "ocr_callback once_options" "Returned page_one"]
    flag
  have discarded:
    "process_ocr_result (ocr_callback once_options) (Returned page_one) cancelled_scan
       = (None,
          cancelled_scan
            \<lparr>trace := trace cancelled_scan @ [OcrEnded True], ocr_cancelled := False\<rparr>)"
    by blast
  have quiet: "\<forall>r. Returned page_two = Returned r \<longrightarrow>
                 trace (ocr_callback once_options r scanned_once) = trace scanned_once @ []"
    by (simp add: trace_ocr_callback)
  from cancelled_result_is_discarded
         [of scanned_once "ocr_callback once_options" "Returned page_two" "[]"]
    quiet
  have few: "length (filter is_ended
        (new_events scanned_once
           (snd (process_ocr_result (ocr_callback once_options) (Returned page_two)
                   scanned_once)))) \<le> 1"
    by simp
  from discarded cache have
    "saved_scanned_pages
       (snd (process_ocr_result (ocr_callback once_options) (Returned page_one) cancelled_scan))
       1 = None"
    and "content
       (snd (process_ocr_result (ocr_callback once_options) (Returned page_one) cancelled_scan))
       = []"
    by simp_all
  with flag discarded clear few show ?thesis by blast
qed



text \<open>
  Claim C5. A resolution without the cache (\<open>from_cache = False\<close>) leaves no scanned
  page, whatever it returns. And in every reachable state, a resolution that returns options
  leaves them in the stored options when their \<open>store_options\<close> is set, and leaves the
  stored options empty otherwise.
\<close>

theorem resolution_clears_cache_and_keeps_slot:
  "saved_scanned_pages (snd (get_ocr_options e False force_save s)) = Map.empty
   \<and> (reachable s \<longrightarrow> get_ocr_options e from_cache force_save s = (Some opts, s') \<longrightarrow>
        stored_options s' = (if store_options opts then Some opts else None))"
  using get_ocr_options_uncached_clears [of e force_save s]
    get_ocr_options_slot [OF reachable_stored_options_ok, of s e from_cache force_save opts s']
  by simp

theorem resolution_clears_cache_and_keeps_slot_witness:
  "reachable scanned_kept
   \<and> saved_scanned_pages scanned_kept 1 = Some ''first page''
   \<and> fst (get_ocr_options (answering (Some once_options)) False False scanned_kept)
       = Some once_options
   \<and> saved_scanned_pages
       (snd (get_ocr_options (answering (Some once_options)) False False scanned_kept)) 1 = None
   \<and> stored_options
       (snd (get_ocr_options (answering (Some once_options)) False False scanned_kept)) = None
   \<and> fst (get_ocr_options (answering None) True False scanned_kept) = Some kept_options
   \<and> stored_options (snd (get_ocr_options (answering None) True False scanned_kept))
       = Some kept_options"
proof -
  have "reachable session_started"
    by (rule reachable.session_start) (simp_all add: session_defs)
  then have "reachable (onScanCurrentPage (answering (Some kept_options)) session_started)"
    by (rule reachable.scan_current_page)
  then have r: "reachable scanned_kept"
    unfolding scanned_kept_def by (rule reachable.result_delivered)
  have cached: "saved_scanned_pages scanned_kept 1 = Some ''first page''"
    by (simp add: session_defs handler_defs)
  obtain s1 where g1:
    "get_ocr_options (answering (Some once_options)) False False scanned_kept
       = (Some once_options, s1)"
    by (simp add: session_defs handler_defs)
  obtain s2 where g2:
    "get_ocr_options (answering None) True False scanned_kept = (Some kept_options, s2)"
    by (simp add: session_defs handler_defs)
  from resolution_clears_cache_and_keeps_slot
         [of "answering (Some once_options)" False scanned_kept False once_options s1]
    resolution_clears_cache_and_keeps_slot
         [of "answering None" False scanned_kept True kept_options s2]
    r cached g1 g2
  show ?thesis by (simp add: once_options_def kept_options_def)
qed

text \<open>
  Claim C6, as amended. With no language available, a resolution that is not answered from
  the stored options shows the notification and returns no options; no dialog is shown and
  no task is started, the notification being the only event. A resolution with the cache
  (\<open>from_cache = True\<close>, no options stored) changes nothing else: stored options and
  scanned pages are as before. A resolution without the cache has cleared both before it
  looked for languages. A scan of the current page in that situation ends with the
  cancellation announcement.
\<close>

theorem no_language_aborts:
  "get_sorted_languages e = [] \<Longrightarrow> \<not> from_cache \<or> stored_options s = None \<Longrightarrow>
     get_ocr_options e from_cache force_save s
       = (None,
          (if from_cache then s
           else s\<lparr>stored_options := None, saved_scanned_pages := Map.empty\<rparr>)
            \<lparr>trace := trace s @ [no_languages_message]\<rparr>)
     \<and> (stored_options s = None \<longrightarrow>
          onScanCurrentPage e s
            = s\<lparr>ocr_cancelled := False,
                trace := trace s @ [no_languages_message, Announce ''Canceled'']\<rparr>)"
  by (auto simp add: onScanCurrentPage_def get_ocr_options_def
        get_ocr_options_from_dlg_no_language emit_def)

theorem no_language_aborts_witness:
  "get_sorted_languages no_language = []
   \<and> stored_options scanned_once = None
   \<and> get_ocr_options no_language True False scanned_once
       = (None, scanned_once\<lparr>trace := trace scanned_once @ [no_languages_message]\<rparr>)
   \<and> saved_scanned_pages (snd (get_ocr_options no_language True False scanned_once)) 1
       = Some ''first page''
   \<and> new_events scanned_once (onScanCurrentPage no_language scanned_once)
       = [no_languages_message, Announce ''Canceled'']"
proof -
  have langs: "get_sorted_languages no_language = []"
    by (simp add: no_language_def)
  have none: "stored_options scanned_once = None"
    by (simp add: session_defs handler_defs)
  have cached: "saved_scanned_pages scanned_once 1 = Some ''first page''"
    by (simp add: session_defs handler_defs)
  from no_language_aborts [OF langs, of True scanned_once False] langs none cached
  show ?thesis by (simp add: new_events_def)
qed

text \<open>
  Claim C6 as stated fails. With options stored and a page scanned, a resolution without
  the cache that finds no language has emptied both; and a resolution with the cache
  returns the stored options without looking for languages, so without a notification.
\<close>

theorem no_language_counterexample:
  "get_sorted_languages no_language = []
   \<and> stored_options scanned_kept = Some kept_options
   \<and> saved_scanned_pages scanned_kept 1 = Some ''first page''
   \<and> fst (get_ocr_options no_language False False scanned_kept) = None
   \<and> stored_options (snd (get_ocr_options no_language False False scanned_kept)) = None
   \<and> saved_scanned_pages (snd (get_ocr_options no_language False False scanned_kept)) 1 = None
   \<and> get_ocr_options no_language True False scanned_kept = (Some kept_options, scanned_kept)"
  by (simp add: session_defs handler_defs)



section \<open>Properties of the batch text extraction\<close>

lemma scan_to_text_prefix:
  "k \<le> length doc \<Longrightarrow> (\<forall>j<k. \<not> aborted (i + j)) \<Longrightarrow> (k < length doc \<longrightarrow> aborted (i + k)) \<Longrightarrow>
     scan_to_text recognize aborted i doc
       = ([i..<i + k], concat (map recognize (take k doc)))"
proof (induction doc arbitrary: i k)
  case Nil
  then show ?case by simp
next
  case (Cons p ps)
  show ?case
  proof (cases k)
    case 0
    with Cons.prems show ?thesis by simp
  next
    case (Suc k')
    from Cons.prems Suc have here: "\<not> aborted i"
      by (metis add.right_neutral zero_less_Suc)
    have rest: "scan_to_text recognize aborted (Suc i) ps
                  = ([Suc i..<Suc i + k'], concat (map recognize (take k' ps)))"
    proof (rule Cons.IH)
      show "k' \<le> length ps" using Cons.prems(1) Suc by simp
      show "\<forall>j<k'. \<not> aborted (Suc i + j)"
      proof (intro allI impI)
        fix j assume "j < k'"
        then have "Suc j < k" using Suc by simp
        with Cons.prems(2) have "\<not> aborted (i + Suc j)" by blast
        then show "\<not> aborted (Suc i + j)" by simp
      qed
      show "k' < length ps \<longrightarrow> aborted (Suc i + k')"
        using Cons.prems(3) Suc by simp
    qed
    from here rest Suc show ?thesis
      by (simp add: upt_conv_Cons)
  qed
qed

lemma updates_progress:
  "updates (map (\<lambda>progress. Update (progress + 1) progress n) ps @ es)
     = map Suc ps @ updates es"
  by (induction ps) (simp_all add: updates_def List.map_filter_def)

lemma continue_with_text_extraction_prefix:
  assumes "k \<le> length doc" and "\<forall>j<k. \<not> aborted j" and "k < length doc \<longrightarrow> aborted k"
  shows "continue_with_text_extraction recognize aborted doc output_file
           = (map (\<lambda>progress. Update (progress + 1) progress (length doc)) [0..<k]
                @ [Dismiss]
                @ (if k = length doc then [Completed (length doc) output_file] else [])
                @ [SetFocus],
              concat (map recognize (take k doc)))"
proof -
  have "scan_to_text recognize aborted 0 doc = ([0..<0 + k], concat (map recognize (take k doc)))"
    by (rule scan_to_text_prefix) (use assms in simp_all)
  then show ?thesis
    by (simp add: continue_with_text_extraction_def Let_def)
qed

text \<open>
  Claim C8. Over a document of \<open>N\<close> pages, a run that is not aborted updates the progress
  dialog exactly \<open>N\<close> times, with the values \<open>1, ..., N\<close> in this order, and the text
  written is the concatenation of the recognized text of all pages, in page order. A run
  aborted when page \<open>k\<close> is due has updated the dialog for the \<open>k\<close> pages before it only,
  has written the text of those pages, and ends like any other run, by dismissing the
  dialog, with no completion message.
\<close>

theorem batch_extraction_progress:
  "((\<forall>i<length doc. \<not> aborted i) \<longrightarrow>
      fst (continue_with_text_extraction recognize aborted doc output_file)
        = map (\<lambda>progress. Update (progress + 1) progress (length doc)) [0..<length doc]
            @ [Dismiss, Completed (length doc) output_file, SetFocus]
      \<and> updates (fst (continue_with_text_extraction recognize aborted doc output_file))
          = map Suc [0..<length doc]
      \<and> sorted_wrt (<) (updates (fst (continue_with_text_extraction recognize aborted doc output_file)))
      \<and> snd (continue_with_text_extraction recognize aborted doc output_file)
          = concat (map recognize doc))
   \<and> (k < length doc \<longrightarrow> aborted k \<longrightarrow> (\<forall>i<k. \<not> aborted i) \<longrightarrow>
        fst (continue_with_text_extraction recognize aborted doc output_file)
          = map (\<lambda>progress. Update (progress + 1) progress (length doc)) [0..<k]
              @ [Dismiss, SetFocus]
        \<and> updates (fst (continue_with_text_extraction recognize aborted doc output_file))
            = map Suc [0..<k]
        \<and> snd (continue_with_text_extraction recognize aborted doc output_file)
            = concat (map recognize (take k doc)))"
proof (intro conjI impI)
  assume run: "\<forall>i<length doc. \<not> aborted i"
  then have whole: "continue_with_text_extraction recognize aborted doc output_file
      = (map (\<lambda>progress. Update (progress + 1) progress (length doc)) [0..<length doc]
           @ [Dismiss, Completed (length doc) output_file, SetFocus],
         concat (map recognize doc))"
    using continue_with_text_extraction_prefix
            [of "length doc" doc aborted recognize output_file]
    by simp
  show "fst (continue_with_text_extraction recognize aborted doc output_file)
        = map (\<lambda>progress. Update (progress + 1) progress (length doc)) [0..<length doc]
            @ [Dismiss, Completed (length doc) output_file, SetFocus]"
    by (simp add: whole)
  show all: "updates (fst (continue_with_text_extraction recognize aborted doc output_file))
          = map Suc [0..<length doc]"
    unfolding whole fst_conv updates_progress
    by (simp add: updates_def List.map_filter_def)
  show "sorted_wrt (<) (updates (fst (continue_with_text_extraction recognize aborted doc output_file)))"
    unfolding all map_Suc_upt by (rule sorted_wrt_upt)
  show "snd (continue_with_text_extraction recognize aborted doc output_file)
          = concat (map recognize doc)"
    by (simp add: whole)
next
  assume k: "k < length doc" and stop: "aborted k" and before: "\<forall>i<k. \<not> aborted i"
  then have part: "continue_with_text_extraction recognize aborted doc output_file
      = (map (\<lambda>progress. Update (progress + 1) progress (length doc)) [0..<k]
           @ [Dismiss, SetFocus],
         concat (map recognize (take k doc)))"
    using continue_with_text_extraction_prefix [of k doc aborted recognize output_file]
    by simp
  show "fst (continue_with_text_extraction recognize aborted doc output_file)
          = map (\<lambda>progress. Update (progress + 1) progress (length doc)) [0..<k]
              @ [Dismiss, SetFocus]"
    by (simp add: part)
  show "updates (fst (continue_with_text_extraction recognize aborted doc output_file))
            = map Suc [0..<k]"
    unfolding part fst_conv updates_progress
    by (simp add: updates_def List.map_filter_def)
  show "snd (continue_with_text_extraction recognize aborted doc output_file)
            = concat (map recognize (take k doc))"
    by (simp add: part)
qed

theorem batch_extraction_progress_witness:
  "length three_pages = 3
   \<and> \<not> never_aborted 0 \<and> \<not> never_aborted 1 \<and> \<not> never_aborted 2
   \<and> updates (fst (continue_with_text_extraction (\<lambda>img. img) never_aborted three_pages
                      ''book.txt''))
       = [1, 2, 3]
   \<and> snd (continue_with_text_extraction (\<lambda>img. img) never_aborted three_pages ''book.txt'')
       = ''one two three ''
   \<and> aborted_after_two 2
   \<and> \<not> aborted_after_two 0 \<and> \<not> aborted_after_two 1
   \<and> fst (continue_with_text_extraction (\<lambda>img. img) aborted_after_two three_pages ''book.txt'')
       = [Update 1 0 3, Update 2 1 3, Dismiss, SetFocus]
   \<and> snd (continue_with_text_extraction (\<lambda>img. img) aborted_after_two three_pages ''book.txt'')
       = ''one two ''"
proof -
  have run: "\<forall>i<length three_pages. \<not> never_aborted i"
    by (simp add: never_aborted_def)
  have k: "2 < length three_pages" and stop: "aborted_after_two 2"
    and before: "\<forall>i<2. \<not> aborted_after_two i"
    by (simp_all add: three_pages_def aborted_after_two_def)
  from batch_extraction_progress
         [of three_pages never_aborted "\<lambda>img. img" "''book.txt''" 2] run
  have full: "updates (fst (continue_with_text_extraction (\<lambda>img. img) never_aborted three_pages
                              ''book.txt''))
                = map Suc [0..<length three_pages]"
    and written: "snd (continue_with_text_extraction (\<lambda>img. img) never_aborted three_pages
                      ''book.txt'')
                = concat (map (\<lambda>img. img) three_pages)"
    by blast+
  from batch_extraction_progress
         [of three_pages aborted_after_two "\<lambda>img. img" "''book.txt''" 2] k stop before
  have part: "fst (continue_with_text_extraction (\<lambda>img. img) aborted_after_two three_pages
                     ''book.txt'')
                = map (\<lambda>progress. Update (progress + 1) progress (length three_pages)) [0..<2]
                    @ [Dismiss, SetFocus]"
    and partial_text: "snd (continue_with_text_extraction (\<lambda>img. img) aborted_after_two
                              three_pages ''book.txt'')
                = concat (map (\<lambda>img. img) (take 2 three_pages))"
    by blast+
  have "map Suc [0..<length three_pages] = [1, 2, 3]"
    by (simp add: three_pages_def upt_conv_Cons)
  moreover have "concat (map (\<lambda>img. img) three_pages) = ''one two three ''"
    by (simp add: three_pages_def)
  moreover have
    "map (\<lambda>progress. Update (progress + 1) progress (length three_pages)) [0..<2]
       @ [Dismiss, SetFocus]
     = [Update 1 0 3, Update 2 1 3, Dismiss, SetFocus]"
    by (simp add: three_pages_def upt_conv_Cons)
  moreover have "concat (map (\<lambda>img. img) (take 2 three_pages)) = ''one two ''"
    by (simp add: three_pages_def)
  moreover have "length three_pages = 3"
    and "\<not> never_aborted 0 \<and> \<not> never_aborted 1 \<and> \<not> never_aborted 2"
    and "\<not> aborted_after_two 0 \<and> \<not> aborted_after_two 1"
    by (simp_all add: three_pages_def never_aborted_def aborted_after_two_def)
  ultimately show ?thesis
    using stop full written part partial_text by simp
qed

section \<open>Properties of the Word document reader\<close>

lemmas word_defs =
  get_converted_filename_def make_proper_html_def target_file_def plain_word_env_def
  two_documents_def short_digest_env_def colliding_documents_def rejecting_env_def
  unencodable_env_def read_def Let_def

lemma target_file_eq:
  "target_file we b = target_file we b' \<longleftrightarrow> generate_file_md5 we b = generate_file_md5 we b'"
  by (simp add: target_file_def)

lemma get_converted_filename_cached:
  "mkdir_storage_area we = None \<Longrightarrow>
   files ws f = Some docx \<Longrightarrow> files ws (target_file we docx) \<noteq> None \<Longrightarrow>
     get_converted_filename we f ws = (Inr (target_file we docx), ws)"
  by (simp add: get_converted_filename_def)

lemma get_converted_filename_Inr:
  assumes "get_converted_filename we f ws = (Inr t, ws1)"
  shows "\<exists>docx. mkdir_storage_area we = None \<and> files ws f = Some docx
           \<and> t = target_file we docx
           \<and> (if files ws t \<noteq> None then ws1 = ws
               else \<exists>html. ws1 = ws\<lparr>converter_calls := converter_calls ws @ [docx],
                                     files := (files ws)(t \<mapsto> html)\<rparr>)"
  using assms
  by (auto simp add: get_converted_filename_def Let_def
        split: option.splits if_splits sum.splits write_result.splits)

lemma get_converted_filename_keeps_source:
  assumes "get_converted_filename we f ws = (Inr t, ws1)"
  shows "files ws1 f = files ws f" and "files ws1 t \<noteq> None"
proof -
  from get_converted_filename_Inr [OF assms] obtain docx where
    src: "files ws f = Some docx" and t: "t = target_file we docx"
    and upd: "if files ws t \<noteq> None then ws1 = ws
              else \<exists>html. ws1 = ws\<lparr>converter_calls := converter_calls ws @ [docx],
                                    files := (files ws)(t \<mapsto> html)\<rparr>"
    by blast
  show "files ws1 f = files ws f"
  proof (cases "files ws t = None")
    case True
    with src have "f \<noteq> t" by auto
    with True upd show ?thesis by auto
  next
    case False
    with upd show ?thesis by simp
  qed
  show "files ws1 t \<noteq> None"
    using upd by (cases "files ws t = None") auto
qed





text \<open>
  A digest of fixed length cannot tell all contents apart: some two different contents
  have the same converted file name.
\<close>

lemma fixed_length_digest_collides:
  fixes h :: "string \<Rightarrow> string"
  assumes "\<forall>b. length (h b) = n"
  shows "\<exists>b b'. b \<noteq> b' \<and> h b = h b'"
proof (rule ccontr)
  assume "\<not> (\<exists>b b'. b \<noteq> b' \<and> h b = h b')"
  then have "inj h"
    by (auto simp add: inj_on_def)
  have "range h \<subseteq> {xs. set xs \<subseteq> UNIV \<and> length xs = n}"
    using assms by auto
  moreover have "finite {xs::string. set xs \<subseteq> UNIV \<and> length xs = n}"
    by (rule finite_lists_length_eq) simp
  ultimately have "finite (range h)"
    by (rule finite_subset)
  then have "finite (UNIV :: string set)"
    using \<open>inj h\<close> by (rule finite_imageD)
  then show False
    by (simp add: infinite_UNIV_listI)
qed

lemma target_file_collides:
  assumes "\<forall>b. length (generate_file_md5 we b) = n"
  shows "\<exists>b b'. b \<noteq> b' \<and> target_file we b = target_file we b'"
  using fixed_length_digest_collides [OF assms]
  by (auto simp add: target_file_def)

text \<open>
  Claim C7, as amended. After a conversion of a source file has returned, the converted
  file is in the storage directory, under the name made of the content hash of the source.
  Converting the same file again, or any file with the same bytes, returns that file and
  changes nothing: the file system is as it was, and the log of the converter has no new
  entry. Converting a file whose bytes have another content hash returns another file of
  the storage directory, named by that hash, which exists afterwards (written by a new run
  of the converter when it did not exist, and reused otherwise), and leaves the first
  converted file as it was.
\<close>

theorem conversion_is_cached_by_content_hash:
  assumes "get_converted_filename we f ws = (Inr t, ws1)"
  shows "files ws1 t \<noteq> None
   \<and> get_converted_filename we f ws1 = (Inr t, ws1)
   \<and> (files ws1 f' = files ws f \<longrightarrow> get_converted_filename we f' ws1 = (Inr t, ws1))
   \<and> (files ws f = Some b \<longrightarrow> files ws1 g = Some b' \<longrightarrow>
        generate_file_md5 we b' \<noteq> generate_file_md5 we b \<longrightarrow>
        get_converted_filename we g ws1 = (Inr t', ws2) \<longrightarrow>
          t' \<noteq> t \<and> t = target_file we b \<and> t' = target_file we b'
          \<and> files ws2 t' \<noteq> None \<and> files ws2 t = files ws1 t
          \<and> (if files ws1 t' = None
               then converter_calls ws2 = converter_calls ws1 @ [b']
               else ws2 = ws1))"
proof -
  from get_converted_filename_Inr [OF assms] obtain docx where
    dir: "mkdir_storage_area we = None"
    and src: "files ws f = Some docx" and t: "t = target_file we docx"
    by blast
  note kept = get_converted_filename_keeps_source [OF assms]
  have again: "get_converted_filename we f' ws1 = (Inr t, ws1)" if "files ws1 f' = files ws f" for f'
    using that dir src t kept(2) by (simp add: get_converted_filename_cached)
  have other: "t' \<noteq> t \<and> t = target_file we b \<and> t' = target_file we b'
          \<and> files ws2 t' \<noteq> None \<and> files ws2 t = files ws1 t
          \<and> (if files ws1 t' = None
               then converter_calls ws2 = converter_calls ws1 @ [b']
               else ws2 = ws1)"
    if b: "files ws f = Some b" and b': "files ws1 g = Some b'"
      and h: "generate_file_md5 we b' \<noteq> generate_file_md5 we b"
      and second: "get_converted_filename we g ws1 = (Inr t', ws2)"
  proof -
    from b src have tb: "t = target_file we b" using t by simp
    from get_converted_filename_Inr [OF second] b' have t'b: "t' = target_file we b'"
      and upd: "if files ws1 t' \<noteq> None then ws2 = ws1
              else \<exists>html. ws2 = ws1\<lparr>converter_calls := converter_calls ws1 @ [b'],
                                    files := (files ws1)(t' \<mapsto> html)\<rparr>"
      by auto
    from h tb t'b have ne: "t' \<noteq> t" by (simp add: target_file_eq)
    from upd ne have "files ws2 t = files ws1 t"
      by (cases "files ws1 t' = None") auto
    moreover from upd have
      "if files ws1 t' = None
       then converter_calls ws2 = converter_calls ws1 @ [b']
       else ws2 = ws1"
      by (cases "files ws1 t' = None") auto
    ultimately show ?thesis
      using ne tb t'b get_converted_filename_keeps_source(2) [OF second] by simp
  qed
  from kept again [of f] again [of f'] other show ?thesis by blast
qed

theorem conversion_is_cached_by_content_hash_witness:
  "get_converted_filename plain_word_env ''a.docx'' two_documents
     = (Inr ''docx_as_html/hello.html'', first_converted)
   \<and> converter_calls first_converted = [''hello'']
   \<and> get_converted_filename plain_word_env ''a.docx'' first_converted
       = (Inr ''docx_as_html/hello.html'', first_converted)
   \<and> files first_converted ''b.docx'' = Some ''world''
   \<and> fst (get_converted_filename plain_word_env ''b.docx'' first_converted)
       = Inr ''docx_as_html/world.html''
   \<and> files (snd (get_converted_filename plain_word_env ''b.docx'' first_converted))
       ''docx_as_html/world.html'' \<noteq> None
   \<and> converter_calls (snd (get_converted_filename plain_word_env ''b.docx'' first_converted))
       = [''hello'', ''world'']"
proof -
  let ?second = "get_converted_filename plain_word_env ''b.docx'' first_converted"
  have first_name:
    "fst (get_converted_filename plain_word_env ''a.docx'' two_documents)
       = Inr ''docx_as_html/hello.html''"
    by (simp add: word_defs)
  then have first:
    "get_converted_filename plain_word_env ''a.docx'' two_documents
       = (Inr ''docx_as_html/hello.html'', first_converted)"
    by (simp add: first_converted_def prod_eq_iff)
  have calls: "converter_calls first_converted = [''hello'']"
    by (simp add: first_converted_def word_defs)
  have a: "files two_documents ''a.docx'' = Some ''hello''"
    by (simp add: two_documents_def)
  have b: "files first_converted ''b.docx'' = Some ''world''"
    by (simp add: first_converted_def word_defs)
  have hashes: "generate_file_md5 plain_word_env ''world''
                  \<noteq> generate_file_md5 plain_word_env ''hello''"
    by (simp add: plain_word_env_def)
  have second_name: "fst ?second = Inr ''docx_as_html/world.html''"
    by (simp add: first_converted_def word_defs)
  then have second: "?second = (Inr ''docx_as_html/world.html'', snd ?second)"
    by (simp add: prod_eq_iff)
  have second_calls: "converter_calls (snd ?second) = [''hello'', ''world'']"
    by (simp add: first_converted_def word_defs)
  from conversion_is_cached_by_content_hash
         [OF first, of "''a.docx''" "''hello''" "''b.docx''" "''world''"
            "''docx_as_html/world.html''" "snd ?second"]
    a b hashes second
  have "get_converted_filename plain_word_env ''a.docx'' first_converted
          = (Inr ''docx_as_html/hello.html'', first_converted)"
    and "files (snd ?second) ''docx_as_html/world.html'' \<noteq> None"
    by blast+
  with first calls b second_name second_calls show ?thesis by blast
qed

text \<open>
  Claim C7 as stated fails for two files with different bytes and the same content hash:
  the second is answered with the converted file of the first, and the converter does not
  run.
\<close>

theorem different_bytes_counterexample:
  "files colliding_documents ''a.docx'' = Some ''hello''
   \<and> files colliding_documents ''c.docx'' = Some ''hellfire''
   \<and> fst (get_converted_filename short_digest_env ''a.docx'' colliding_documents)
       = Inr ''docx_as_html/hell.html''
   \<and> converter_calls (snd (get_converted_filename short_digest_env ''a.docx'' colliding_documents))
       = [''hello'']
   \<and> get_converted_filename short_digest_env ''c.docx''
         (snd (get_converted_filename short_digest_env ''a.docx'' colliding_documents))
       = (Inr ''docx_as_html/hell.html'',
          snd (get_converted_filename short_digest_env ''a.docx'' colliding_documents))"
  by (simp add: word_defs)




end
